theory Spec2Isabelle
  imports Complex_Main "HOL-Library.AList" "HOL-Library.Sublist"
begin

section \<open>Data model\<close>

text \<open>
  The extension \<^verbatim>\<open>ParameterStatistics\<close> of
  \<^verbatim>\<open>pytorch_pfn_extras/training/extensions/parameter_statistics.py\<close> walks the named
  parameters of a sequence of modules, applies every registered statistic function to the
  flattened \<^verbatim>\<open>data\<close> and \<^verbatim>\<open>grad\<close> tensors, stores the results in a dictionary under
  formatted report keys, adds that dictionary to a summary and reports the summary's means
  when its trigger fires.

  A tensor element is a float: a finite number, an infinity, or NaN. The code itself does no
  arithmetic on elements; it only asks whether an element is NaN.
\<close>

datatype pyfloat = Fin rat | PInf | NInf | NaN

text \<open>
  A tensor is a scalar (zero dimensions) or a sequence of sub-tensors along its first
  dimension. \<^verbatim>\<open>numel\<close> counts the scalars, \<^verbatim>\<open>flatten\<close> lists them in row-major order,
  and iterating a tensor yields its sub-tensors along the first dimension (a zero-dimensional
  tensor cannot be iterated: Python raises \<^verbatim>\<open>TypeError\<close>).
\<close>

datatype tensor = Elem pyfloat | Arr "tensor list"

fun numel :: "tensor \<Rightarrow> nat" where
  "numel (Elem x) = 1"
| "numel (Arr ts) = sum_list (map numel ts)"

fun flatten :: "tensor \<Rightarrow> pyfloat list" where
  "flatten (Elem x) = [x]"
| "flatten (Arr ts) = concat (map flatten ts)"

datatype error = AttributeError | TypeError | FunctionRaised

fun iter_tensor :: "tensor \<Rightarrow> error + tensor list" where
  "iter_tensor (Elem x) = Inl TypeError"
| "iter_tensor (Arr ts) = Inr ts"

text \<open>
  What a statistic function may return and what the dictionary of one invocation holds: a
  Python float, a Python sequence of floats that is not a tensor (a tuple or a list), or a
  tensor.
\<close>

datatype pyvalue = PyFloat pyfloat | PySeq "pyfloat list" | Tensor tensor

text \<open>
  A statistic function takes the one-dimensional flattened tensor and returns a value, or
  raises. Its result is a function of the contents it is given, as the class documentation
  asks. What a function may leave behind in the tensor it was handed is the subject of the
  section on functions that write to their argument, below.
\<close>

type_synonym statfn = "pyfloat list \<Rightarrow> error + pyvalue"

text \<open>
  A parameter has a \<^verbatim>\<open>data\<close> tensor and a \<^verbatim>\<open>grad\<close> that is a tensor or \<^verbatim>\<open>None\<close>.
\<close>

record parameter =
  data :: tensor
  grad :: "tensor option"

text \<open>
  The \<^verbatim>\<open>links\<close> argument is typed \<^verbatim>\<open>Any\<close>: a module (identified by its address), a
  list, a tuple, or some other iterable such as a generator or a set. The host owns the
  modules; \<^verbatim>\<open>named_parameters()\<close> of a module is read from the host's heap at the time of
  the call.
\<close>

datatype pyobj = Module nat | ListObj "pyobj list" | TupleObj "pyobj list" | IterObj "pyobj list"

type_synonym heap = "nat \<Rightarrow> (string \<times> parameter) list"

fun named_parameters :: "heap \<Rightarrow> pyobj \<Rightarrow> error + (string \<times> parameter) list" where
  "named_parameters h (Module a) = Inr (h a)"
| "named_parameters h _ = Inl AttributeError"

text \<open>
  A Python \<^verbatim>\<open>dict\<close> keeps insertion order and unique keys: assigning to an existing key
  replaces the value in place, assigning to a new key appends. That is \<^const>\<open>AList.update\<close>.
\<close>

type_synonym 'v dict = "(string \<times> 'v) list"

definition dict_setitem :: "'v dict \<Rightarrow> string \<Rightarrow> 'v \<Rightarrow> 'v dict" where
  "dict_setitem d k v = AList.update k v d"

definition dict_update :: "'v dict \<Rightarrow> (string \<times> 'v) list \<Rightarrow> 'v dict" where
  "dict_update d kvs = foldl (\<lambda>d' (k, v). dict_setitem d' k v) d kvs"

text \<open>\<^verbatim>\<open>dict(pairs)\<close> and a dict comprehension: the pairs are assigned in order.\<close>

definition dict_of :: "(string \<times> 'v) list \<Rightarrow> 'v dict" where
  "dict_of kvs = dict_update [] kvs"

section \<open>Formatting report keys\<close>

definition digit_char :: "nat \<Rightarrow> char" where
  "digit_char d = ''0123456789'' ! d"

text \<open>The decimal representation Python's \<^verbatim>\<open>format\<close> gives a non-negative integer.\<close>

function string_of_nat :: "nat \<Rightarrow> string" where
  "string_of_nat n =
     (if n < 10 then [digit_char n] else string_of_nat (n div 10) @ [digit_char (n mod 10)])"
  by pat_completeness auto
termination
  by (relation "measure id") auto

declare string_of_nat.simps [simp del]

text \<open>\<^verbatim>\<open>'{prefix}{param_name}/{attr_name}/{function_name}'.format(...)\<close>\<close>

definition report_key_template :: "string \<Rightarrow> string \<Rightarrow> string \<Rightarrow> string \<Rightarrow> string" where
  "report_key_template prefix_str param_name attr_name function_name =
     prefix_str @ param_name @ ''/'' @ attr_name @ ''/'' @ function_name"

text \<open>\<^verbatim>\<open>'{}/{}'.format(key, i)\<close>\<close>

definition format_index :: "string \<Rightarrow> nat \<Rightarrow> string" where
  "format_index key i = key @ ''/'' @ string_of_nat i"

text \<open>
  \<^verbatim>\<open>self._prefix + '/' if self._prefix else ''\<close>: \<^verbatim>\<open>None\<close> and the empty string are both
  falsy.
\<close>

definition prefix_arg :: "string option \<Rightarrow> string" where
  "prefix_arg p = (case p of None \<Rightarrow> '''' | Some s \<Rightarrow> if s = '''' then '''' else s @ ''/'')"

section \<open>The extension\<close>

text \<open>
  Modelled from the spec: \<^verbatim>\<open>reporting.DictSummary\<close> (not part of the source file) is an
  accumulator that ingests a mapping of key to value on each \<^verbatim>\<open>add\<close> and maintains
  running means keyed by report key. Its state is represented by the sequence of mappings it
  has ingested since it was created, which determines everything it can report;
  \<^verbatim>\<open>compute_mean\<close>, the arithmetic on floats, is the parameter \<open>compute_mean\<close> of \<open>call\<close>.
\<close>

type_synonym DictSummary = "pyvalue dict list"

text \<open>Modelled from the spec: \<^verbatim>\<open>DictSummary()\<close>, a fresh summary that has ingested nothing.\<close>

definition DictSummary :: DictSummary where
  "DictSummary = []"

text \<open>Modelled from the spec: \<^verbatim>\<open>DictSummary.add\<close> ingests one more mapping.\<close>

definition summary_add :: "DictSummary \<Rightarrow> pyvalue dict \<Rightarrow> DictSummary" where
  "summary_add s d = s @ [d]"

text \<open>
  The state of one \<^verbatim>\<open>ParameterStatistics\<close> object. The trigger is an external stateful
  predicate: its state has type \<open>'t\<close>, and calling it is the parameter \<open>trigger_call\<close> of
  \<open>call\<close> below.
\<close>

record 't extension =
  self_links :: "pyobj list"
  self_statistics :: "statfn dict"
  self_attrs :: "string list"
  self_prefix :: "string option"
  self_trigger :: 't
  self_summary :: DictSummary
  self_skip_nan_params :: bool

datatype statistics_arg = StatNone | StatDefault | StatDict "(string \<times> statfn) list"

text \<open>
  \<^verbatim>\<open>__init__\<close>. The table \<^verbatim>\<open>default_statistics\<close> holds closures over torch functions; it
  is the parameter \<open>default_statistics\<close>. \<^verbatim>\<open>get_trigger\<close> is external: the resolved trigger
  object is the argument \<open>trigger\<close>.

  Lines 95 to 97: an argument that is not a list or a tuple is wrapped in a tuple of one
  element; a list or a tuple is kept as it is. The code keeps the caller's list object
  itself, not a copy: the record holds the elements the list has at construction, so a
  caller who changes that list afterwards is outside this model.
\<close>

definition normalize_links :: "pyobj \<Rightarrow> pyobj list" where
  "normalize_links links =
     (case links of ListObj xs \<Rightarrow> xs | TupleObj xs \<Rightarrow> xs | _ \<Rightarrow> [links])"

definition init ::
  "statfn dict \<Rightarrow> pyobj \<Rightarrow> statistics_arg \<Rightarrow> bool \<Rightarrow> bool \<Rightarrow> string option \<Rightarrow> 't \<Rightarrow> bool
     \<Rightarrow> 't extension" where
  "init default_statistics links statistics report_params report_grads prefix_opt trigger
        skip_nan_params =
     \<lparr> self_links = normalize_links links,
       self_statistics =
         dict_of (case statistics of StatNone \<Rightarrow> [] | StatDefault \<Rightarrow> default_statistics
                  | StatDict d \<Rightarrow> d),
       self_attrs = (if report_params then [''data''] else [])
                    @ (if report_grads then [''grad''] else []),
       self_prefix = prefix_opt,
       self_trigger = trigger,
       self_summary = DictSummary,
       self_skip_nan_params = skip_nan_params \<rparr>"

text \<open>
  A \<^verbatim>\<open>for\<close> loop whose body updates a state and may raise: the first exception ends the
  loop.
\<close>

fun for_loop :: "('a \<Rightarrow> 's \<Rightarrow> error + 's) \<Rightarrow> 'a list \<Rightarrow> 's \<Rightarrow> error + 's" where
  "for_loop body [] s = Inr s"
| "for_loop body (x # xs) s =
     (case body x s of Inl e \<Rightarrow> Inl e | Inr s' \<Rightarrow> for_loop body xs s')"

text \<open>\<^verbatim>\<open>getattr(param, attr_name)\<close>; \<^verbatim>\<open>None\<close> has no \<^verbatim>\<open>flatten\<close>.\<close>

definition getattr :: "parameter \<Rightarrow> string \<Rightarrow> tensor option" where
  "getattr param attr_name =
     (if attr_name = ''data'' then Some (data param)
      else if attr_name = ''grad'' then grad param else None)"

text \<open>Lines 140 to 145: the NaN check and the application of the statistic function.\<close>

definition stat_value :: "bool \<Rightarrow> statfn \<Rightarrow> pyfloat list \<Rightarrow> error + pyvalue" where
  "stat_value skip_nan function params =
     (if skip_nan \<and> NaN \<in> set params then Inr (PyFloat NaN) else function params)"

text \<open>Lines 152 to 159: storing one result under its key.\<close>

fun store :: "string \<Rightarrow> pyvalue \<Rightarrow> pyvalue dict \<Rightarrow> error + pyvalue dict" where
  "store key (Tensor t) statistics =
     (if numel t > 1 then
        (case iter_tensor t of
           Inl e \<Rightarrow> Inl e
         | Inr vs \<Rightarrow>
             Inr (dict_update statistics
                    (dict_of (map (\<lambda>(i, v). (format_index key i, Tensor v)) (enumerate 0 vs)))))
      else Inr (dict_setitem statistics key (Tensor t)))"
| "store key v statistics = Inr (dict_setitem statistics key v)"

text \<open>The body of the innermost loop, lines 136 to 159.\<close>

definition function_body ::
  "bool \<Rightarrow> string option \<Rightarrow> string \<Rightarrow> parameter \<Rightarrow> string \<Rightarrow> string \<times> statfn
     \<Rightarrow> pyvalue dict \<Rightarrow> error + pyvalue dict" where
  "function_body skip_nan prefix_opt param_name param attr_name =
     (\<lambda>(function_name, function) statistics.
        case getattr param attr_name of
          None \<Rightarrow> Inl AttributeError
        | Some t \<Rightarrow>
            (case stat_value skip_nan function (flatten t) of
               Inl e \<Rightarrow> Inl e
             | Inr v \<Rightarrow>
                 store (report_key_template (prefix_arg prefix_opt) param_name attr_name
                          function_name) v statistics))"

text \<open>Lines 130 to 159: the four nested loops that fill the dictionary.\<close>

definition link_body :: "'t extension \<Rightarrow> heap \<Rightarrow> pyobj \<Rightarrow> pyvalue dict \<Rightarrow> error + pyvalue dict" where
  "link_body ext h link statistics =
     (case named_parameters h link of
        Inl e \<Rightarrow> Inl e
      | Inr ps \<Rightarrow>
          for_loop (\<lambda>(param_name, param).
            for_loop (\<lambda>attr_name.
              for_loop (function_body (self_skip_nan_params ext) (self_prefix ext)
                          param_name param attr_name)
                (self_statistics ext))
              (self_attrs ext))
            ps statistics)"

definition collect :: "'t extension \<Rightarrow> heap \<Rightarrow> error + pyvalue dict" where
  "collect ext h = for_loop (link_body ext h) (self_links ext) []"

text \<open>
  The world outside the extension: the host's modules, which the extension reads, and the
  reporting sink, to which \<^verbatim>\<open>reporting.report\<close> hands a mapping.
\<close>

record world =
  modules :: heap
  reported :: "pyvalue dict list"

text \<open>
  \<^verbatim>\<open>__call__\<close>. An exception leaves the object and the world as they were: the dictionary
  being filled is a local variable.
\<close>

definition call ::
  "('t \<Rightarrow> 'm \<Rightarrow> bool \<times> 't) \<Rightarrow> (DictSummary \<Rightarrow> pyvalue dict) \<Rightarrow> 't extension \<Rightarrow> 'm \<Rightarrow> world
     \<Rightarrow> error + 't extension \<times> world" where
  "call trigger_call compute_mean ext manager w =
     (case collect ext (modules w) of
        Inl e \<Rightarrow> Inl e
      | Inr statistics \<Rightarrow>
          (let summary = summary_add (self_summary ext) statistics;
               (fired, trigger') = trigger_call (self_trigger ext) manager
           in if fired
              then Inr (ext\<lparr>self_trigger := trigger', self_summary := DictSummary\<rparr>,
                        w\<lparr>reported := reported w @ [compute_mean summary]\<rparr>)
              else Inr (ext\<lparr>self_trigger := trigger', self_summary := summary\<rparr>, w)))"


text \<open>
  The host's training loop invokes the extension again and again; before each invocation
  the host has brought its modules into some state \<open>h\<close>. The first exception ends the run.
\<close>

fun run ::
  "('t \<Rightarrow> 'm \<Rightarrow> bool \<times> 't) \<Rightarrow> (DictSummary \<Rightarrow> pyvalue dict) \<Rightarrow> 't extension
     \<Rightarrow> ('m \<times> heap) list \<Rightarrow> world \<Rightarrow> error + 't extension \<times> world" where
  "run trigger_call compute_mean ext [] w = Inr (ext, w)"
| "run trigger_call compute_mean ext ((manager, h) # rest) w =
     (case call trigger_call compute_mean ext manager (w\<lparr>modules := h\<rparr>) of
        Inl e \<Rightarrow> Inl e
      | Inr (ext', w') \<Rightarrow> run trigger_call compute_mean ext' rest w')"

section \<open>Statistic functions that write to their argument\<close>











section \<open>What one invocation writes\<close>

text \<open>
  The pairs one result is stored as, in the order they are assigned: one pair under the key
  itself, or one pair per sub-tensor along the first dimension under the key followed by the
  position.
\<close>

definition indexed_items :: "string \<Rightarrow> tensor list \<Rightarrow> (string \<times> pyvalue) list" where
  "indexed_items key vs = map (\<lambda>(i, v). (format_index key i, Tensor v)) (enumerate 0 vs)"

fun items_of :: "string \<Rightarrow> pyvalue \<Rightarrow> (string \<times> pyvalue) list" where
  "items_of key (Tensor (Arr ts)) =
     (if numel (Arr ts) > 1 then indexed_items key ts else [(key, Tensor (Arr ts))])"
| "items_of key v = [(key, v)]"

text \<open>
  The iteration space of the nested loops, in iteration order: every named parameter of every
  link, every attribute, every entry of the registry.
\<close>

type_synonym scan = "(string \<times> parameter) \<times> string \<times> (string \<times> statfn)"

definition link_parameters :: "heap \<Rightarrow> pyobj list \<Rightarrow> (string \<times> parameter) list" where
  "link_parameters h links =
     concat (map (\<lambda>l. case named_parameters h l of Inl e \<Rightarrow> [] | Inr ps \<Rightarrow> ps) links)"

definition scanned :: "'t extension \<Rightarrow> heap \<Rightarrow> scan list" where
  "scanned ext h =
     List.product (link_parameters h (self_links ext))
       (List.product (self_attrs ext) (self_statistics ext))"

text \<open>The report key of one point of the iteration space and the pairs written there.\<close>

definition scan_key :: "'t extension \<Rightarrow> scan \<Rightarrow> string" where
  "scan_key ext = (\<lambda>((param_name, param), attr_name, (function_name, function)).
     report_key_template (prefix_arg (self_prefix ext)) param_name attr_name function_name)"

definition scan_value :: "'t extension \<Rightarrow> scan \<Rightarrow> error + pyvalue" where
  "scan_value ext = (\<lambda>((param_name, param), attr_name, (function_name, function)).
     case getattr param attr_name of
       None \<Rightarrow> Inl AttributeError
     | Some t \<Rightarrow> stat_value (self_skip_nan_params ext) function (flatten t))"

definition scan_items :: "'t extension \<Rightarrow> scan \<Rightarrow> (string \<times> pyvalue) list" where
  "scan_items ext x =
     (case scan_value ext x of Inl e \<Rightarrow> [] | Inr v \<Rightarrow> items_of (scan_key ext x) v)"

definition written :: "'t extension \<Rightarrow> heap \<Rightarrow> (string \<times> pyvalue) list" where
  "written ext h = concat (map (scan_items ext) (scanned ext h))"

section \<open>Example collaborators and configuration\<close>

text \<open>
  Statistic functions over the finite elements, computed exactly over the rationals: the
  mean (NaN on an empty tensor or when an element is not finite), the number of elements,
  and a two-valued statistic, the first and the last element, that raises on an empty tensor.
\<close>

fun finite_elems :: "pyfloat list \<Rightarrow> rat list option" where
  "finite_elems [] = Some []"
| "finite_elems (Fin r # xs) = (case finite_elems xs of None \<Rightarrow> None | Some rs \<Rightarrow> Some (r # rs))"
| "finite_elems (x # xs) = None"

definition mean_float :: "pyfloat list \<Rightarrow> pyfloat" where
  "mean_float xs =
     (case finite_elems xs of
        None \<Rightarrow> NaN
      | Some rs \<Rightarrow> if rs = [] then NaN else Fin (sum_list rs / of_nat (length rs)))"

definition stat_mean :: statfn where
  "stat_mean xs = Inr (Tensor (Elem (mean_float xs)))"


definition stat_ends :: statfn where
  "stat_ends xs =
     (case xs of [] \<Rightarrow> Inl FunctionRaised
      | x # _ \<Rightarrow> Inr (Tensor (Arr [Elem x, Elem (last xs)])))"

text \<open>The scalar a stored value stands for; NaN when it is not a scalar.\<close>

fun value_float :: "pyvalue \<Rightarrow> pyfloat" where
  "value_float (PyFloat x) = x"
| "value_float (Tensor (Elem x)) = x"
| "value_float v = NaN"

text \<open>
  Modelled from the spec: \<^verbatim>\<open>DictSummary.compute_mean\<close> (not part of the source file)
  gives, for each key ingested, the mean of the values ingested under it. Here the mean is
  exact over the rationals, for scalar values.
\<close>

definition mean_summary :: "DictSummary \<Rightarrow> pyvalue dict" where
  "mean_summary s =
     map (\<lambda>k. (k, PyFloat (mean_float (concat (map (\<lambda>d. case map_of d k of None \<Rightarrow> []
                                                          | Some v \<Rightarrow> [value_float v]) s)))))
       (remdups (concat (map (map fst) s)))"

text \<open>
  Modelled from the spec: a trigger configured to fire every \<open>n\<close> invocations. Its state is
  the number of invocations so far.
\<close>

definition interval_trigger :: "nat \<Rightarrow> nat \<Rightarrow> unit \<Rightarrow> bool \<times> nat" where
  "interval_trigger n count manager = (Suc count mod n = 0, Suc count)"

text \<open>One module at address 0 with a parameter \<^verbatim>\<open>W\<close> whose gradient holds a NaN.\<close>

definition ex_W :: parameter where
  "ex_W = \<lparr> data = Arr [Elem (Fin 1), Elem (Fin 3)], grad = Some (Arr [Elem NaN, Elem (Fin 0)]) \<rparr>"

definition ex_heap :: heap where
  "ex_heap a = (if a = 0 then [(''W'', ex_W)] else [])"

definition ex_world :: world where
  "ex_world = \<lparr> modules = ex_heap, reported = [] \<rparr>"

text \<open>
  An extension over that module with a prefix, both attributes, NaN skipping, and two
  statistics.
\<close>

definition ex_ext :: "nat extension" where
  "ex_ext = init [] (Module 0) (StatDict [(''mean'', stat_mean), (''ends'', stat_ends)])
              True True (Some ''p'') 0 True"


text \<open>What that extension collects from the module.\<close>

definition ex_statistics :: "pyvalue dict" where
  "ex_statistics =
     [(''p/W/data/mean'', Tensor (Elem (Fin 2))),
      (''p/W/data/ends/0'', Tensor (Elem (Fin 1))),
      (''p/W/data/ends/1'', Tensor (Elem (Fin 3))),
      (''p/W/grad/mean'', PyFloat NaN), (''p/W/grad/ends'', PyFloat NaN)]"


text \<open>
  A two-valued statistic that returns a Python tuple of floats, not a tensor: the first and
  the last element. It raises on an empty tensor.
\<close>

definition stat_pair :: statfn where
  "stat_pair xs = (case xs of [] \<Rightarrow> Inl FunctionRaised | x # _ \<Rightarrow> Inr (PySeq [x, last xs]))"









section \<open>Decimal numerals are unambiguous\<close>

lemma digit_char_inj: "a < 10 \<Longrightarrow> b < 10 \<Longrightarrow> digit_char a = digit_char b \<Longrightarrow> a = b"
proof -
  assume "a < 10" "b < 10" "digit_char a = digit_char b"
  moreover have "distinct ''0123456789''" by simp
  ultimately show ?thesis unfolding digit_char_def
    by (simp only: nth_eq_iff_index_eq[of "''0123456789''" a b, symmetric] list.size length_Cons)
qed

lemma string_of_nat_ne: "string_of_nat n \<noteq> []"
  by (subst string_of_nat.simps) simp

lemma string_of_nat_inj: "string_of_nat m = string_of_nat n \<Longrightarrow> m = n"
proof (induction m arbitrary: n rule: string_of_nat.induct)
  case (1 m)
  show ?case
  proof (cases "m < 10")
    case True
    then have lm: "string_of_nat m = [digit_char m]" by (subst string_of_nat.simps) simp
    show ?thesis
    proof (cases "n < 10")
      case nT: True
      then have "string_of_nat n = [digit_char n]" by (subst string_of_nat.simps) simp
      with lm 1(2) True nT show ?thesis by (auto dest: digit_char_inj)
    next
      case False
      then have "string_of_nat n = string_of_nat (n div 10) @ [digit_char (n mod 10)]"
        by (subst string_of_nat.simps) simp
      with lm 1(2) string_of_nat_ne[of "n div 10"] show ?thesis by (cases "string_of_nat (n div 10)") auto
    qed
  next
    case False
    then have lm: "string_of_nat m = string_of_nat (m div 10) @ [digit_char (m mod 10)]"
      by (subst string_of_nat.simps) simp
    show ?thesis
    proof (cases "n < 10")
      case True
      then have "string_of_nat n = [digit_char n]" by (subst string_of_nat.simps) simp
      with lm 1(2) string_of_nat_ne[of "m div 10"] show ?thesis by (cases "string_of_nat (m div 10)") auto
    next
      case nF: False
      then have "string_of_nat n = string_of_nat (n div 10) @ [digit_char (n mod 10)]"
        by (subst string_of_nat.simps) simp
      with lm 1(2) have a: "string_of_nat (m div 10) = string_of_nat (n div 10)"
        and b: "digit_char (m mod 10) = digit_char (n mod 10)" by auto
      from 1(1)[OF False a] have "m div 10 = n div 10" .
      moreover from b have "m mod 10 = n mod 10" by (auto dest!: digit_char_inj[rotated 2])
      ultimately show ?thesis by (metis div_mult_mod_eq)
    qed
  qed
qed

section \<open>Dictionaries\<close>

lemma dict_update_Nil [simp]: "dict_update d [] = d"
  by (simp add: dict_update_def)

lemma dict_update_Cons [simp]: "dict_update d ((k, v) # kvs) = dict_update (dict_setitem d k v) kvs"
  by (simp add: dict_update_def)

lemma dict_update_append: "dict_update d (xs @ ys) = dict_update (dict_update d xs) ys"
  by (simp add: dict_update_def)

lemma keys_dict_setitem: "fst ` set (dict_setitem d k v) = insert k (fst ` set d)"
  by (simp add: dict_setitem_def dom_update)

lemma keys_dict_update: "fst ` set (dict_update d kvs) = fst ` set d \<union> fst ` set kvs"
proof (induction kvs arbitrary: d)
  case Nil
  then show ?case by simp
next
  case (Cons kv kvs)
  obtain k v where kv: "kv = (k, v)" by (cases kv)
  have "fst ` set (dict_update (dict_setitem d k v) kvs)
          = fst ` set (dict_setitem d k v) \<union> fst ` set kvs"
    by (rule Cons.IH)
  then show ?case by (simp add: kv keys_dict_setitem)
qed

lemma map_of_dict_setitem: "map_of (dict_setitem d k v) = (map_of d)(k \<mapsto> v)"
  by (simp add: dict_setitem_def update_conv')

lemma map_of_dict_update: "map_of (dict_update d kvs) = map_of d ++ map_of (rev kvs)"
  by (induction kvs arbitrary: d) (auto simp: map_of_dict_setitem)

lemma dict_setitem_fresh: "k \<notin> fst ` set d \<Longrightarrow> dict_setitem d k v = d @ [(k, v)]"
  unfolding dict_setitem_def by (induction d) auto

lemma dict_update_fresh:
  "distinct (map fst kvs) \<Longrightarrow> fst ` set d \<inter> fst ` set kvs = {} \<Longrightarrow> dict_update d kvs = d @ kvs"
proof (induction kvs arbitrary: d)
  case Nil
  then show ?case by simp
next
  case (Cons kv kvs)
  obtain k v where kv: "kv = (k, v)" by (cases kv)
  from Cons.prems have fresh: "k \<notin> fst ` set d" by (auto simp: kv)
  have "dict_update (d @ [(k, v)]) kvs = (d @ [(k, v)]) @ kvs"
    using Cons.prems by (intro Cons.IH) (auto simp: kv)
  then show ?case by (simp add: kv dict_setitem_fresh[OF fresh])
qed

lemma dict_of_distinct: "distinct (map fst kvs) \<Longrightarrow> dict_of kvs = kvs"
  unfolding dict_of_def using dict_update_fresh[of kvs "[]"] by simp

lemma format_index_inj: "format_index key i = format_index key j \<Longrightarrow> i = j"
  by (simp add: format_index_def string_of_nat_inj)

lemma indexed_items_nth:
  "indexed_items key vs = map (\<lambda>i. (format_index key i, Tensor (vs ! i))) [0..<length vs]"
  by (rule nth_equalityI) (simp_all add: indexed_items_def nth_enumerate_eq)

lemma map_fst_indexed_items:
  "map fst (indexed_items key vs) = map (format_index key) [0..<length vs]"
  by (simp add: indexed_items_nth o_def)

lemma distinct_indexed_items: "distinct (map fst (indexed_items key vs))"
  by (simp add: map_fst_indexed_items distinct_map inj_on_def format_index_inj[of key])

lemma tensor_numel_Elem: "1 < numel t \<Longrightarrow> \<exists>ts. t = Arr ts"
  by (cases t) auto

lemma store_items: "store key v d = Inr (dict_update d (items_of key v))"
proof (cases v)
  case (Tensor t)
  then show ?thesis
    by (cases t) (simp_all add: dict_of_distinct distinct_indexed_items flip: indexed_items_def)
qed simp_all

section \<open>The nested loops as one pass over the iteration space\<close>

lemma for_loop_append:
  "for_loop body (xs @ ys) s =
     (case for_loop body xs s of Inl e \<Rightarrow> Inl e | Inr s' \<Rightarrow> for_loop body ys s')"
  by (induction xs arbitrary: s) (auto split: sum.splits)

lemma for_loop_map: "for_loop body (map f xs) s = for_loop (\<lambda>x. body (f x)) xs s"
  by (induction xs arbitrary: s) (auto split: sum.splits)

lemma for_loop_cong:
  "(\<And>x s. x \<in> set xs \<Longrightarrow> body x s = body' x s) \<Longrightarrow> for_loop body xs s = for_loop body' xs s"
  by (induction xs arbitrary: s) (auto split: sum.splits)

lemma for_loop_product:
  "for_loop (\<lambda>x. for_loop (g x) ys) xs s = for_loop (\<lambda>(x, y). g x y) (List.product xs ys) s"
  by (induction xs arbitrary: s) (auto simp: for_loop_append for_loop_map split: sum.splits)

lemma for_loop_fails:
  "x \<in> set xs \<Longrightarrow> (\<And>s. \<exists>e. body x s = Inl e) \<Longrightarrow> \<exists>e. for_loop body xs s = Inl e"
proof (induction xs arbitrary: s)
  case Nil
  then show ?case by simp
next
  case (Cons y ys)
  show ?case
  proof (cases "body y s")
    case (Inl e)
    then show ?thesis by simp
  next
    case (Inr s')
    with Cons.prems(2)[of s] have "x \<noteq> y" by auto
    with Cons.prems(1) have "x \<in> set ys" by simp
    from Cons.IH[OF this Cons.prems(2)] Inr show ?thesis by simp
  qed
qed

lemma for_loop_writes:
  assumes "\<And>x d. x \<in> set xs \<Longrightarrow>
             body x d = (case val x of Inl e \<Rightarrow> Inl e | Inr v \<Rightarrow> Inr (dict_update d (its x v)))"
  shows "for_loop body xs d = Inr d' \<longleftrightarrow>
           (\<forall>x\<in>set xs. \<exists>v. val x = Inr v) \<and>
           d' = dict_update d (concat (map (\<lambda>x. case val x of Inl e \<Rightarrow> [] | Inr v \<Rightarrow> its x v) xs))"
  using assms
proof (induction xs arbitrary: d)
  case Nil
  then show ?case by auto
next
  case (Cons x xs)
  have IH: "\<And>d. for_loop body xs d = Inr d' \<longleftrightarrow>
           (\<forall>x\<in>set xs. \<exists>v. val x = Inr v) \<and>
           d' = dict_update d (concat (map (\<lambda>x. case val x of Inl e \<Rightarrow> [] | Inr v \<Rightarrow> its x v) xs))"
    by (rule Cons.IH) (simp add: Cons.prems)
  have hd: "body x d = (case val x of Inl e \<Rightarrow> Inl e | Inr v \<Rightarrow> Inr (dict_update d (its x v)))"
    by (rule Cons.prems) simp
  show ?case
  proof (cases "val x")
    case (Inl e)
    then show ?thesis by (simp add: hd)
  next
    case (Inr v)
    then show ?thesis by (simp add: hd IH dict_update_append)
  qed
qed

lemma function_body_scan:
  "function_body (self_skip_nan_params ext) (self_prefix ext) pn p a (fn, f) d =
     (case scan_value ext ((pn, p), a, (fn, f)) of
        Inl e \<Rightarrow> Inl e
      | Inr v \<Rightarrow> Inr (dict_update d (items_of (scan_key ext ((pn, p), a, (fn, f))) v)))"
  by (simp add: function_body_def scan_value_def scan_key_def store_items
      split: option.splits sum.splits)

lemma link_body_Module:
  "link_body ext h (Module a) d =
     for_loop (\<lambda>((pn, p), a, fnf).
                function_body (self_skip_nan_params ext) (self_prefix ext) pn p a fnf)
       (List.product (h a) (List.product (self_attrs ext) (self_statistics ext))) d"
proof -
  let ?fb = "function_body (self_skip_nan_params ext) (self_prefix ext)"
  let ?A = "self_attrs ext" and ?S = "self_statistics ext"
  have "link_body ext h (Module a) d =
          for_loop (\<lambda>x. for_loop (\<lambda>y. for_loop (?fb (fst x) (snd x) y) ?S) ?A) (h a) d"
    by (simp add: link_body_def split_def)
  also have "\<dots> = for_loop (\<lambda>x. for_loop (\<lambda>y. ?fb (fst x) (snd x) (fst y) (snd y))
                                 (List.product ?A ?S)) (h a) d"
  proof (rule for_loop_cong)
    fix x s
    show "for_loop (\<lambda>y. for_loop (?fb (fst x) (snd x) y) ?S) ?A s =
          for_loop (\<lambda>y. ?fb (fst x) (snd x) (fst y) (snd y)) (List.product ?A ?S) s"
      using for_loop_product[of "\<lambda>y z. ?fb (fst x) (snd x) y z" ?S ?A s]
      by (simp add: split_def)
  qed
  also have "\<dots> = for_loop (\<lambda>(x, y). ?fb (fst x) (snd x) (fst y) (snd y))
                        (List.product (h a) (List.product ?A ?S)) d"
    by (rule for_loop_product)
  finally show ?thesis by (simp add: split_def)
qed

lemma product_append: "List.product (xs @ ys) zs = List.product xs zs @ List.product ys zs"
  by (induction xs) auto

lemma link_parameters_Cons:
  "link_parameters h (Module a # ls) = h a @ link_parameters h ls"
  by (simp add: link_parameters_def)

lemma for_loop_links:
  "\<forall>l\<in>set ls. \<exists>a. l = Module a \<Longrightarrow>
   for_loop (link_body ext h) ls d =
     for_loop (\<lambda>((pn, p), a, fnf).
                function_body (self_skip_nan_params ext) (self_prefix ext) pn p a fnf)
       (List.product (link_parameters h ls) (List.product (self_attrs ext) (self_statistics ext))) d"
proof (induction ls arbitrary: d)
  case Nil
  then show ?case by (simp add: link_parameters_def)
next
  case (Cons l ls)
  then obtain a where l: "l = Module a" by auto
  from Cons have IH: "\<And>d. for_loop (link_body ext h) ls d =
     for_loop (\<lambda>((pn, p), a, fnf).
                function_body (self_skip_nan_params ext) (self_prefix ext) pn p a fnf)
       (List.product (link_parameters h ls) (List.product (self_attrs ext) (self_statistics ext))) d"
    by simp
  show ?case
    by (simp add: l link_parameters_Cons product_append for_loop_append IH link_body_Module
        split: sum.splits)
qed

lemma link_body_not_Module: "\<nexists>a. l = Module a \<Longrightarrow> link_body ext h l d = Inl AttributeError"
  by (cases l) (simp_all add: link_body_def)

lemma collect_Inr_modules:
  assumes "collect ext h = Inr d" and "l \<in> set (self_links ext)"
  shows "\<exists>a. l = Module a"
proof (rule ccontr)
  assume "\<nexists>a. l = Module a"
  then have "\<And>s. \<exists>e. link_body ext h l s = Inl e" by (simp add: link_body_not_Module)
  from for_loop_fails[where s = "[]", OF assms(2), of "link_body ext h", OF this] assms(1)
  show False by (auto simp: collect_def)
qed

lemma collect_scanned:
  assumes "\<forall>l\<in>set (self_links ext). \<exists>a. l = Module a"
  shows "collect ext h = Inr d \<longleftrightarrow>
           (\<forall>x\<in>set (scanned ext h). \<exists>v. scan_value ext x = Inr v) \<and> d = dict_of (written ext h)"
proof -
  have "collect ext h =
     for_loop (\<lambda>((pn, p), a, fnf).
                function_body (self_skip_nan_params ext) (self_prefix ext) pn p a fnf)
       (scanned ext h) []"
    unfolding collect_def scanned_def by (rule for_loop_links[OF assms])
  moreover have "for_loop (\<lambda>((pn, p), a, fnf).
                function_body (self_skip_nan_params ext) (self_prefix ext) pn p a fnf)
       (scanned ext h) [] = Inr d \<longleftrightarrow>
           (\<forall>x\<in>set (scanned ext h). \<exists>v. scan_value ext x = Inr v) \<and>
           d = dict_update [] (concat (map (\<lambda>x. case scan_value ext x of Inl e \<Rightarrow> []
                 | Inr v \<Rightarrow> items_of (scan_key ext x) v) (scanned ext h)))"
    by (rule for_loop_writes) (auto simp: function_body_scan)
  ultimately show ?thesis
    by (simp add: dict_of_def written_def scan_items_def[abs_def])
qed

lemma collect_Inr_iff:
  "collect ext h = Inr d \<longleftrightarrow>
     (\<forall>l\<in>set (self_links ext). \<exists>a. l = Module a) \<and>
     (\<forall>x\<in>set (scanned ext h). \<exists>v. scan_value ext x = Inr v) \<and> d = dict_of (written ext h)"
  using collect_scanned[of ext h d] collect_Inr_modules[of ext h d] by blast

section \<open>Invocations\<close>

lemma call_preserves_config:
  "call tc cm ext m w = Inr (ext', w') \<Longrightarrow>
     self_links ext' = self_links ext \<and> self_statistics ext' = self_statistics ext \<and>
     self_attrs ext' = self_attrs ext \<and> self_prefix ext' = self_prefix ext \<and>
     self_skip_nan_params ext' = self_skip_nan_params ext \<and> modules w' = modules w"
  by (auto simp: call_def Let_def split: sum.splits prod.splits if_splits)

lemma product_Nil_right: "List.product xs [] = []"
  by (induction xs) auto

lemma scanned_no_statistics: "self_statistics ext = [] \<Longrightarrow> scanned ext h = []"
  by (simp add: scanned_def product_Nil_right)

lemma scanned_no_attrs: "self_attrs ext = [] \<Longrightarrow> scanned ext h = []"
  by (simp add: scanned_def product_Nil_right)

lemma collect_nothing_scanned:
  "scanned ext h = [] \<Longrightarrow> \<forall>l\<in>set (self_links ext). \<exists>a. l = Module a \<Longrightarrow> collect ext h = Inr []"
  by (simp add: collect_scanned written_def dict_of_def)

lemma call_no_statistics:
  assumes "self_statistics ext = []" and "\<forall>l\<in>set (self_links ext). \<exists>a. l = Module a"
  shows "\<exists>ext' w'. call tc cm ext m w = Inr (ext', w') \<and> self_statistics ext' = [] \<and>
           self_links ext' = self_links ext"
proof -
  have "collect ext (modules w) = Inr []"
    using assms by (simp add: collect_nothing_scanned scanned_no_statistics)
  then show ?thesis
    using assms(1) by (cases "tc (self_trigger ext) m") (simp add: call_def Let_def)
qed

lemma run_no_statistics:
  assumes "self_statistics ext = []" and "\<forall>l\<in>set (self_links ext). \<exists>a. l = Module a"
  shows "\<exists>ext' w'. run tc cm ext invs w = Inr (ext', w') \<and> self_statistics ext' = [] \<and>
           self_links ext' = self_links ext"
  using assms
proof (induction invs arbitrary: ext w)
  case Nil
  then show ?case by simp
next
  case (Cons inv invs)
  obtain m h where inv: "inv = (m, h)" by (cases inv)
  from call_no_statistics[OF Cons.prems, of tc cm m "w\<lparr>modules := h\<rparr>"]
  obtain ext1 w1 where c: "call tc cm ext m (w\<lparr>modules := h\<rparr>) = Inr (ext1, w1)"
    and s: "self_statistics ext1 = []" and l: "self_links ext1 = self_links ext"
    by blast
  from Cons.prems(2) l have "\<forall>l\<in>set (self_links ext1). \<exists>a. l = Module a" by simp
  from Cons.IH[OF s this, of w1] l show ?case by (auto simp: inv c)
qed

lemma function_body_prefix:
  assumes "prefix_arg p = prefix_arg q"
  shows "function_body skip p = function_body skip q"
  unfolding function_body_def assms by (rule refl)

lemma collect_prefix:
  assumes "prefix_arg p = prefix_arg q"
  shows "collect (ext\<lparr>self_prefix := p\<rparr>) h = collect (ext\<lparr>self_prefix := q\<rparr>) h"
proof -
  have "link_body (ext\<lparr>self_prefix := p\<rparr>) h = link_body (ext\<lparr>self_prefix := q\<rparr>) h"
    by (rule ext)+ (simp add: link_body_def function_body_prefix[OF assms] split: sum.splits)
  then show ?thesis by (simp add: collect_def)
qed

lemma init_fields:
  "self_links (init ds links st rp rg pre trig skip) = normalize_links links"
  "self_attrs (init ds links st rp rg pre trig skip)
     = (if rp then [''data''] else []) @ (if rg then [''grad''] else [])"
  "self_prefix (init ds links st rp rg pre trig skip) = pre"
  "self_skip_nan_params (init ds links st rp rg pre trig skip) = skip"
  "self_trigger (init ds links st rp rg pre trig skip) = trig"
  "self_summary (init ds links st rp rg pre trig skip) = []"
  by (simp_all add: init_def DictSummary_def)

section \<open>Runs of invocations\<close>

lemma collect_config:
  assumes "self_links ext' = self_links ext" and "self_statistics ext' = self_statistics ext"
    and "self_attrs ext' = self_attrs ext" and "self_prefix ext' = self_prefix ext"
    and "self_skip_nan_params ext' = self_skip_nan_params ext"
  shows "collect ext' h = collect ext h"
proof -
  have "link_body ext' h = link_body ext h"
    unfolding link_body_def[abs_def] assms by (rule refl)
  then show ?thesis by (simp add: collect_def assms)
qed

lemma call_collect:
  "call tc cm ext m w = Inr (ext', w') \<Longrightarrow> collect ext' h = collect ext h"
  by (rule collect_config) (simp_all add: call_preserves_config)

lemma call_not_fired:
  assumes "collect ext (modules w) = Inr stats" and "tc (self_trigger ext) m = (False, t')"
  shows "call tc cm ext m w =
           Inr (ext\<lparr>self_trigger := t', self_summary := self_summary ext @ [stats]\<rparr>, w)"
  using assms by (simp add: call_def summary_add_def)

lemma call_fired:
  assumes "collect ext (modules w) = Inr stats" and "tc (self_trigger ext) m = (True, t')"
  shows "call tc cm ext m w =
           Inr (ext\<lparr>self_trigger := t', self_summary := []\<rparr>,
                w\<lparr>reported := reported w @ [cm (self_summary ext @ [stats])]\<rparr>)"
  using assms by (simp add: call_def summary_add_def DictSummary_def)

lemma call_raises:
  assumes "collect ext (modules w) = Inl e"
  shows "call tc cm ext m w = Inl e"
  using assms by (simp add: call_def)

lemma call_reported:
  assumes "call tc cm ext m w = Inr (ext', w')"
  shows "\<exists>stats. collect ext (modules w) = Inr stats \<and>
           ((reported w' = reported w \<and> self_summary ext' = self_summary ext @ [stats]) \<or>
            (\<exists>r. reported w' = reported w @ [r]))"
proof -
  from assms obtain stats where c: "collect ext (modules w) = Inr stats"
    by (auto simp: call_def split: sum.splits)
  obtain fired t' where t: "tc (self_trigger ext) m = (fired, t')"
    by (cases "tc (self_trigger ext) m")
  show ?thesis
  proof (cases fired)
    case True
    with call_fired[OF c, of tc m t' cm] t assms c show ?thesis by auto
  next
    case False
    with call_not_fired[OF c, of tc m t' cm] t assms c show ?thesis by auto
  qed
qed

lemma run_reported:
  "run tc cm ext invs w = Inr (ext', w') \<Longrightarrow> \<exists>rs. reported w' = reported w @ rs"
proof (induction invs arbitrary: ext w)
  case Nil
  then show ?case by simp
next
  case (Cons inv invs)
  obtain m h where inv: "inv = (m, h)" by (cases inv)
  from Cons.prems obtain ext1 w1
    where c: "call tc cm ext m (w\<lparr>modules := h\<rparr>) = Inr (ext1, w1)"
      and r: "run tc cm ext1 invs w1 = Inr (ext', w')"
    by (auto simp: inv split: sum.splits)
  from call_reported[OF c] obtain rs1 where "reported w1 = reported w @ rs1" by auto
  moreover from Cons.IH[OF r] obtain rs2 where "reported w' = reported w1 @ rs2" by blast
  ultimately show ?case by simp
qed


lemma run_no_flush:
  assumes "run tc cm ext invs w = Inr (ext', w')" and "reported w' = reported w"
  shows "self_summary ext' =
           self_summary ext @ map (\<lambda>(m, h). case collect ext h of Inl e \<Rightarrow> [] | Inr s \<Rightarrow> s) invs"
  using assms
proof (induction invs arbitrary: ext w)
  case Nil
  then show ?case by simp
next
  case (Cons inv invs)
  obtain m h where inv: "inv = (m, h)" by (cases inv)
  from Cons.prems(1) obtain ext1 w1
    where c: "call tc cm ext m (w\<lparr>modules := h\<rparr>) = Inr (ext1, w1)"
      and r: "run tc cm ext1 invs w1 = Inr (ext', w')"
    by (auto simp: inv split: sum.splits)
  from run_reported[OF r] obtain rs2 where rs2: "reported w' = reported w1 @ rs2" by blast
  from call_reported[OF c] obtain stats
    where st: "collect ext h = Inr stats"
      and alt: "(reported w1 = reported w \<and> self_summary ext1 = self_summary ext @ [stats]) \<or>
                (\<exists>r. reported w1 = reported w @ [r])"
    by auto
  from alt rs2 Cons.prems(2) have same: "reported w1 = reported w"
    and s1: "self_summary ext1 = self_summary ext @ [stats]"
    by auto
  from same Cons.prems(2) have "reported w' = reported w1" by simp
  from Cons.IH[OF r this] have "self_summary ext' =
      self_summary ext1 @ map (\<lambda>(m, h). case collect ext1 h of Inl e \<Rightarrow> [] | Inr s \<Rightarrow> s) invs" .
  then show ?case by (simp add: inv s1 st call_collect[OF c])
qed

section \<open>Where the entries of the dictionary come from\<close>

lemma set_dict_setitem: "set (dict_setitem d k v) \<subseteq> insert (k, v) (set d)"
  unfolding dict_setitem_def by (induction d) auto

lemma set_dict_update: "set (dict_update d kvs) \<subseteq> set d \<union> set kvs"
proof (induction kvs arbitrary: d)
  case Nil
  then show ?case by simp
next
  case (Cons kv kvs)
  obtain k v where kv: "kv = (k, v)" by (cases kv)
  have "set (dict_update (dict_setitem d k v) kvs) \<subseteq> set (dict_setitem d k v) \<union> set kvs"
    by (rule Cons.IH)
  with set_dict_setitem[of d k v] show ?case by (auto simp: kv)
qed

lemma set_link_parameters:
  "set (link_parameters h links) = (\<Union>a \<in> {a. Module a \<in> set links}. set (h a))"
proof (induction links)
  case Nil
  then show ?case by (simp add: link_parameters_def)
next
  case (Cons l ls)
  have "link_parameters h (l # ls) =
          (case named_parameters h l of Inl e \<Rightarrow> [] | Inr ps \<Rightarrow> ps) @ link_parameters h ls"
    by (simp add: link_parameters_def)
  with Cons show ?case by (cases l) auto
qed

lemma set_scanned:
  "set (scanned ext h) =
     {((pn, p), a, (fn, f)) | pn p a fn f.
        (\<exists>m. Module m \<in> set (self_links ext) \<and> (pn, p) \<in> set (h m)) \<and>
        a \<in> set (self_attrs ext) \<and> (fn, f) \<in> set (self_statistics ext)}"
  by (auto simp: scanned_def set_link_parameters)

lemma collect_provenance:
  assumes "collect ext h = Inr stats" and "(k, v) \<in> set stats"
  shows "\<exists>x\<in>set (scanned ext h). \<exists>val.
           scan_value ext x = Inr val \<and> (k, v) \<in> set (items_of (scan_key ext x) val)"
proof -
  from assms(1) have ok: "\<forall>x\<in>set (scanned ext h). \<exists>v. scan_value ext x = Inr v"
    and stats: "stats = dict_of (written ext h)"
    by (simp_all add: collect_Inr_iff)
  from assms(2) stats have "(k, v) \<in> set (written ext h)"
    using set_dict_update[of "[]" "written ext h"] by (auto simp: dict_of_def)
  then obtain x where x: "x \<in> set (scanned ext h)" and kv: "(k, v) \<in> set (scan_items ext x)"
    by (auto simp: written_def)
  from ok x obtain val where val: "scan_value ext x = Inr val" by blast
  with kv have "(k, v) \<in> set (items_of (scan_key ext x) val)" by (simp add: scan_items_def)
  with x val show ?thesis by blast
qed

lemma items_of_cases:
  assumes "(k, v) \<in> set (items_of key val)"
  shows "(k = key \<and> v = val \<and> (\<forall>t. val = Tensor t \<longrightarrow> numel t \<le> 1)) \<or>
         (\<exists>ts i. val = Tensor (Arr ts) \<and> 1 < numel (Arr ts) \<and> i < length ts \<and>
            k = format_index key i \<and> v = Tensor (ts ! i))"
proof (cases "\<exists>ts. val = Tensor (Arr ts) \<and> 1 < numel (Arr ts)")
  case True
  then obtain ts where val: "val = Tensor (Arr ts)" and n: "1 < numel (Arr ts)" by blast
  with assms have "(k, v) \<in> set (indexed_items key ts)" by simp
  then obtain i where "i < length ts" "k = format_index key i" "v = Tensor (ts ! i)"
    by (auto simp: indexed_items_nth)
  with val n show ?thesis by blast
next
  case False
  then have "items_of key val = [(key, val)]"
    by (cases "(key, val)" rule: items_of.cases) auto
  moreover from False have "\<forall>t. val = Tensor t \<longrightarrow> numel t \<le> 1"
    by (metis tensor_numel_Elem not_le_imp_less)
  ultimately show ?thesis using assms by simp
qed

lemma getattr_Some: "getattr p a = Some t \<Longrightarrow> a = ''data'' \<or> a = ''grad''"
  by (auto simp: getattr_def split: if_splits)

section \<open>What is stored at one point of the iteration space\<close>




section \<open>Registering a statistic\<close>





section \<open>The last write to a key wins\<close>












section \<open>Storing one result\<close>

lemma numel_map_Elem: "numel (Arr (map Elem xs)) = length xs"
  by (induction xs) auto

lemma key_notin_indexed_items: "key \<notin> fst ` set (indexed_items key ts)"
  by (auto simp: indexed_items_nth format_index_def)

lemma map_of_rev_indexed_items:
  "i < length ts \<Longrightarrow> map_of (rev (indexed_items key ts)) (format_index key i) = Some (Tensor (ts ! i))"
proof -
  assume i: "i < length ts"
  have "distinct (map fst (rev (indexed_items key ts)))"
    using distinct_indexed_items[of key ts] by (simp add: rev_map[symmetric])
  moreover from i have "(format_index key i, Tensor (ts ! i)) \<in> set (rev (indexed_items key ts))"
    by (auto simp: indexed_items_nth)
  ultimately show ?thesis by (rule map_of_is_SomeI)
qed

lemma store_multi:
  assumes "1 < numel (Arr ts)"
  shows "store key (Tensor (Arr ts)) d = Inr (dict_update d (indexed_items key ts))"
  using assms by (simp add: store_items)

lemma store_single:
  assumes "\<forall>t. v = Tensor t \<longrightarrow> numel t \<le> 1"
  shows "store key v d = Inr (dict_setitem d key v)"
proof -
  have "items_of key v = [(key, v)]"
    using assms by (cases "(key, v)" rule: items_of.cases) auto
  then show ?thesis by (simp add: store_items)
qed

section \<open>Substrings of report keys\<close>

lemma not_sublist_sep:
  assumes c: "c \<notin> set g" and a: "\<not> sublist g a" and b: "\<not> sublist g b"
  shows "\<not> sublist g (a @ c # b)"
proof
  assume "sublist g (a @ c # b)"
  then consider "sublist g a" | "sublist g (c # b)"
    | xs1 xs2 where "g = xs1 @ xs2" "suffix xs1 a" "prefix xs2 (c # b)"
    by (auto simp: sublist_append)
  then show False
  proof cases
    case 1
    with a show False by simp
  next
    case 2
    then have "prefix g (c # b)" using b by (simp add: sublist_Cons_right)
    then have "g = [] \<or> (\<exists>zs. g = c # zs)" by (cases g) auto
    with c a show False by auto
  next
    case 3
    from 3(3) have "xs2 = [] \<or> (\<exists>zs. xs2 = c # zs)" by (cases xs2) auto
    then show False
    proof
      assume "xs2 = []"
      with 3(1,2) have "suffix g a" by simp
      with a show False by (simp add: suffix_imp_sublist)
    next
      assume "\<exists>zs. xs2 = c # zs"
      with 3(1) c show False by auto
    qed
  qed
qed

lemma digit_char_set: "d < 10 \<Longrightarrow> digit_char d \<in> set ''0123456789''"
  unfolding digit_char_def by (rule nth_mem) simp

lemma string_of_nat_digits: "set (string_of_nat n) \<subseteq> set ''0123456789''"
proof (induction n rule: string_of_nat.induct)
  case (1 n)
  show ?case
  proof (cases "n < 10")
    case True
    then have "string_of_nat n = [digit_char n]" by (subst string_of_nat.simps) simp
    with digit_char_set[OF True] show ?thesis by simp
  next
    case False
    then have "string_of_nat n = string_of_nat (n div 10) @ [digit_char (n mod 10)]"
      by (subst string_of_nat.simps) simp
    moreover have "digit_char (n mod 10) \<in> set ''0123456789''"
      by (rule digit_char_set) simp
    ultimately show ?thesis using 1[OF False] by simp
  qed
qed

lemma sublist_set: "sublist g s \<Longrightarrow> set g \<subseteq> set s"
  by (auto simp: sublist_def)

lemma grad_not_in_numeral: "\<not> sublist ''grad'' (string_of_nat n)"
proof
  assume "sublist ''grad'' (string_of_nat n)"
  then have "set ''grad'' \<subseteq> set (string_of_nat n)" by (rule sublist_set)
  with string_of_nat_digits[of n] have "set ''grad'' \<subseteq> set ''0123456789''" by blast
  then show False by simp
qed

lemma grad_not_in_key:
  assumes "\<not> sublist ''grad'' pre" and "\<not> sublist ''grad'' pn" and "\<not> sublist ''grad'' fn"
  shows "\<not> sublist ''grad'' (prefix_arg (Some pre) @ pn @ ''/data/'' @ fn)"
    and "\<not> sublist ''grad'' (prefix_arg None @ pn @ ''/data/'' @ fn)"
    and "\<not> sublist ''grad'' (prefix_arg (Some pre) @ pn @ ''/data/'' @ fn @ ''/'' @ string_of_nat i)"
    and "\<not> sublist ''grad'' (prefix_arg None @ pn @ ''/data/'' @ fn @ ''/'' @ string_of_nat i)"
proof -
  have s: "CHR ''/'' \<notin> set ''grad''" by simp
  have d: "\<not> sublist ''grad'' ''data''" by (simp add: sublist_Cons_right)
  have 1: "\<not> sublist ''grad'' (''data'' @ CHR ''/'' # fn)"
    by (rule not_sublist_sep[OF s d assms(3)])
  have 2: "\<not> sublist ''grad'' (pn @ CHR ''/'' # ''data'' @ CHR ''/'' # fn)"
    by (rule not_sublist_sep[OF s assms(2) 1])
  have 3: "\<not> sublist ''grad'' (pre @ CHR ''/'' # pn @ CHR ''/'' # ''data'' @ CHR ''/'' # fn)"
    by (rule not_sublist_sep[OF s assms(1) 2])
  have f: "\<not> sublist ''grad'' (fn @ CHR ''/'' # string_of_nat i)"
    by (rule not_sublist_sep[OF s assms(3) grad_not_in_numeral])
  have 4: "\<not> sublist ''grad'' (''data'' @ CHR ''/'' # fn @ CHR ''/'' # string_of_nat i)"
    by (rule not_sublist_sep[OF s d f])
  have 5: "\<not> sublist ''grad'' (pn @ CHR ''/'' # ''data'' @ CHR ''/'' # fn @ CHR ''/'' # string_of_nat i)"
    by (rule not_sublist_sep[OF s assms(2) 4])
  have 6: "\<not> sublist ''grad'' (pre @ CHR ''/'' # pn @ CHR ''/'' # ''data'' @ CHR ''/'' # fn
                                   @ CHR ''/'' # string_of_nat i)"
    by (rule not_sublist_sep[OF s assms(1) 5])
  show "\<not> sublist ''grad'' (prefix_arg (Some pre) @ pn @ ''/data/'' @ fn)"
    using 2 3 by (simp add: prefix_arg_def)
  show "\<not> sublist ''grad'' (prefix_arg None @ pn @ ''/data/'' @ fn)"
    using 2 by (simp add: prefix_arg_def)
  show "\<not> sublist ''grad'' (prefix_arg (Some pre) @ pn @ ''/data/'' @ fn @ ''/'' @ string_of_nat i)"
    using 5 6 by (simp add: prefix_arg_def)
  show "\<not> sublist ''grad'' (prefix_arg None @ pn @ ''/data/'' @ fn @ ''/'' @ string_of_nat i)"
    using 5 by (simp add: prefix_arg_def)
qed

lemma grad_in_slash_grad: "sublist ''/grad/'' key \<Longrightarrow> sublist ''grad'' key"
proof -
  assume "sublist ''/grad/'' key"
  then obtain ps ss where "key = ps @ ''/grad/'' @ ss" by (auto simp: sublist_def)
  then have "key = (ps @ ''/'') @ ''grad'' @ (''/'' @ ss)" by simp
  then show ?thesis unfolding sublist_def by blast
qed

section \<open>Functions that leave their argument as it was\<close>








section \<open>The example configuration evaluated\<close>

lemma string_of_nat_0: "string_of_nat 0 = ''0''"
  by (simp add: string_of_nat.simps digit_char_def)

lemma string_of_nat_1: "string_of_nat (Suc 0) = ''1''"
  by (simp add: string_of_nat.simps digit_char_def)

lemma ex_collect:
  "collect ex_ext ex_heap =
     Inr [(''p/W/data/mean'', Tensor (Elem (Fin 2))),
          (''p/W/data/ends/0'', Tensor (Elem (Fin 1))),
          (''p/W/data/ends/1'', Tensor (Elem (Fin 3))),
          (''p/W/grad/mean'', PyFloat NaN), (''p/W/grad/ends'', PyFloat NaN)]"
  by (simp add: ex_ext_def collect_def init_def normalize_links_def dict_of_def dict_setitem_def
      link_body_def ex_heap_def ex_W_def function_body_def getattr_def stat_value_def
      stat_mean_def stat_ends_def mean_float_def report_key_template_def prefix_arg_def
      format_index_def string_of_nat_0 string_of_nat_1)

lemma ex_ext_fields:
  "self_links ex_ext = [Module 0]"
  "self_statistics ex_ext = [(''mean'', stat_mean), (''ends'', stat_ends)]"
  "self_attrs ex_ext = [''data'', ''grad'']"
  "self_prefix ex_ext = Some ''p''"
  "self_skip_nan_params ex_ext = True"
  "self_summary ex_ext = []"
  "self_trigger ex_ext = 0"
  by (simp_all add: ex_ext_def init_def normalize_links_def dict_of_def dict_setitem_def DictSummary_def)

lemma ex_collect_statistics: "collect ex_ext ex_heap = Inr ex_statistics"
  by (simp add: ex_collect ex_statistics_def)

lemma ex_collect_mean:
  "collect (init [] (Module 0) (StatDict [(''mean'', stat_mean)]) True False None (0::nat) False)
     ex_heap = Inr [(''W/data/mean'', Tensor (Elem (Fin 2)))]"
  by (simp add: collect_def init_def normalize_links_def dict_of_def dict_setitem_def
      link_body_def ex_heap_def ex_W_def function_body_def getattr_def stat_value_def
      stat_mean_def mean_float_def report_key_template_def prefix_arg_def)










section \<open>Report keys\<close>

text \<open>
  Claim C1, as amended. Every entry of the dictionary that an invocation collects was
  produced at some named parameter of a link, for a scanned attribute (\<^verbatim>\<open>data\<close> or
  \<^verbatim>\<open>grad\<close>) and a function of the registry, and its key is exactly the parameter name,
  the attribute name and the function name joined by \<^verbatim>\<open>/\<close>, with the prefix and a
  \<^verbatim>\<open>/\<close> in front when a non-empty prefix is configured and nothing in front otherwise.
  The key is followed by \<^verbatim>\<open>/\<close> and a decimal position exactly when the result of the
  function is a tensor of more than one element: then the entry holds the sub-tensor at
  that position along the first dimension. Every other result, also a sequence of several
  values that is not a tensor, is the entry's value under the key without a position.
\<close>

theorem report_keys_follow_template:
  assumes "collect ext h = Inr statistics" and "(key, value) \<in> set statistics"
  shows "\<exists>m param_name param attr_name function_name function t val.
           Module m \<in> set (self_links ext) \<and> (param_name, param) \<in> set (h m) \<and>
           attr_name \<in> set (self_attrs ext) \<and> (attr_name = ''data'' \<or> attr_name = ''grad'') \<and>
           (function_name, function) \<in> set (self_statistics ext) \<and>
           getattr param attr_name = Some t \<and>
           stat_value (self_skip_nan_params ext) function (flatten t) = Inr val \<and>
           ((key = (case self_prefix ext of None \<Rightarrow> '''' | Some s \<Rightarrow> if s = '''' then '''' else s @ ''/'')
                     @ param_name @ ''/'' @ attr_name @ ''/'' @ function_name \<and>
             value = val \<and> (\<forall>t'. val = Tensor t' \<longrightarrow> numel t' \<le> 1)) \<or>
            (\<exists>ts i. val = Tensor (Arr ts) \<and> 1 < numel (Arr ts) \<and> i < length ts \<and>
               key = (case self_prefix ext of None \<Rightarrow> '''' | Some s \<Rightarrow> if s = '''' then '''' else s @ ''/'')
                       @ param_name @ ''/'' @ attr_name @ ''/'' @ function_name
                       @ ''/'' @ string_of_nat i \<and>
               value = Tensor (ts ! i)))"
proof -
  from collect_provenance[OF assms] obtain x val
    where x: "x \<in> set (scanned ext h)" and val: "scan_value ext x = Inr val"
      and kv: "(key, value) \<in> set (items_of (scan_key ext x) val)"
    by blast
  from x obtain pn p a fn f m
    where xeq: "x = ((pn, p), a, (fn, f))" and m: "Module m \<in> set (self_links ext)"
      and p: "(pn, p) \<in> set (h m)" and a: "a \<in> set (self_attrs ext)"
      and f: "(fn, f) \<in> set (self_statistics ext)"
    by (auto simp: set_scanned)
  from val xeq obtain t where t: "getattr p a = Some t"
    and sv: "stat_value (self_skip_nan_params ext) f (flatten t) = Inr val"
    by (auto simp: scan_value_def split: option.splits)
  have key: "scan_key ext x =
      (case self_prefix ext of None \<Rightarrow> '''' | Some s \<Rightarrow> if s = '''' then '''' else s @ ''/'')
        @ pn @ ''/'' @ a @ ''/'' @ fn"
    by (simp add: xeq scan_key_def report_key_template_def prefix_arg_def)
  from items_of_cases[OF kv] getattr_Some[OF t] m p a f t sv show ?thesis
    unfolding key format_index_def by (simp only: append_assoc) blast
qed

theorem report_keys_follow_template_witness:
  "collect ex_ext ex_heap =
     Inr [(''p/W/data/mean'', Tensor (Elem (Fin 2))),
          (''p/W/data/ends/0'', Tensor (Elem (Fin 1))),
          (''p/W/data/ends/1'', Tensor (Elem (Fin 3))),
          (''p/W/grad/mean'', PyFloat NaN), (''p/W/grad/ends'', PyFloat NaN)] \<and>
   (\<exists>m param_name param attr_name function_name function t val.
           Module m \<in> set (self_links ex_ext) \<and> (param_name, param) \<in> set (ex_heap m) \<and>
           attr_name \<in> set (self_attrs ex_ext) \<and> (attr_name = ''data'' \<or> attr_name = ''grad'') \<and>
           (function_name, function) \<in> set (self_statistics ex_ext) \<and>
           getattr param attr_name = Some t \<and>
           stat_value (self_skip_nan_params ex_ext) function (flatten t) = Inr val \<and>
           ((''p/W/data/ends/1'' = (case self_prefix ex_ext of None \<Rightarrow> '''' | Some s \<Rightarrow> if s = '''' then '''' else s @ ''/'')
                     @ param_name @ ''/'' @ attr_name @ ''/'' @ function_name \<and>
             Tensor (Elem (Fin 3)) = val \<and> (\<forall>t'. val = Tensor t' \<longrightarrow> numel t' \<le> 1)) \<or>
            (\<exists>ts i. val = Tensor (Arr ts) \<and> 1 < numel (Arr ts) \<and> i < length ts \<and>
               ''p/W/data/ends/1'' = (case self_prefix ex_ext of None \<Rightarrow> '''' | Some s \<Rightarrow> if s = '''' then '''' else s @ ''/'')
                       @ param_name @ ''/'' @ attr_name @ ''/'' @ function_name
                       @ ''/'' @ string_of_nat i \<and>
               Tensor (Elem (Fin 3)) = Tensor (ts ! i))))"
  using report_keys_follow_template[of ex_ext ex_heap _ "''p/W/data/ends/1''" "Tensor (Elem (Fin 3))",
      OF ex_collect]
  by (simp add: ex_collect)

text \<open>
  The claim as stated fails for a statistic of several values that is not a tensor: a
  function that returns a tuple of two floats is stored under \<^verbatim>\<open>W/data/pair\<close>, with no
  position after the key.
\<close>

theorem sequence_result_counterexample:
  "collect (init [] (Module 0) (StatDict [(''pair'', stat_pair)]) True False None (0::nat) False)
     ex_heap = Inr [(''W/data/pair'', PySeq [Fin 1, Fin 3])]"
  by (simp add: collect_def init_def normalize_links_def dict_of_def dict_setitem_def
      link_body_def ex_heap_def ex_W_def function_body_def getattr_def stat_value_def
      stat_pair_def report_key_template_def prefix_arg_def)

section \<open>Results with several values\<close>

text \<open>
  Claim C2, as amended. A result that is a tensor of more than one element is stored as one
  entry per sub-tensor along its first dimension, under the key followed by \<^verbatim>\<open>/0\<close>,
  \<^verbatim>\<open>/1\<close>, ... in order, and nothing is stored under the key itself, whose entry stays as it
  was; for a one-dimensional tensor of \<open>k > 1\<close> scalars these are exactly \<open>k\<close>
  entries holding one element each. Every other result (a Python float, a tensor of at most
  one element, a sequence that is not a tensor) is stored under the key itself.
\<close>

theorem store_expands_tensors:
  "(1 < numel (Arr ts) \<longrightarrow>
      store key (Tensor (Arr ts)) []
        = Inr (map (\<lambda>i. (key @ ''/'' @ string_of_nat i, Tensor (ts ! i))) [0..<length ts]) \<and>
      (\<exists>d'. store key (Tensor (Arr ts)) d = Inr d' \<and>
            map_of d' key = map_of d key \<and>
            (\<forall>i<length ts. map_of d' (key @ ''/'' @ string_of_nat i) = Some (Tensor (ts ! i))) \<and>
            fst ` set d' = fst ` set d \<union> (\<lambda>i. key @ ''/'' @ string_of_nat i) ` {..<length ts})) \<and>
   (1 < length xs \<longrightarrow>
      store key (Tensor (Arr (map Elem xs))) []
        = Inr (map (\<lambda>i. (key @ ''/'' @ string_of_nat i, Tensor (Elem (xs ! i)))) [0..<length xs])) \<and>
   ((\<forall>t. v = Tensor t \<longrightarrow> numel t \<le> 1) \<longrightarrow>
      (\<exists>d'. store key v d = Inr d' \<and> map_of d' = (map_of d)(key \<mapsto> v) \<and>
            fst ` set d' = insert key (fst ` set d)))"
proof (intro conjI impI)
  assume n: "1 < numel (Arr ts)"
  have fresh: "dict_update [] (indexed_items key ts) = indexed_items key ts"
    using dict_update_fresh[of "indexed_items key ts" "[]"] distinct_indexed_items[of key ts]
    by simp
  have "store key (Tensor (Arr ts)) [] = Inr (indexed_items key ts)"
    unfolding store_multi[OF n] fresh by (rule refl)
  then show "store key (Tensor (Arr ts)) []
        = Inr (map (\<lambda>i. (key @ ''/'' @ string_of_nat i, Tensor (ts ! i))) [0..<length ts])"
    by (simp only: indexed_items_nth format_index_def)
  let ?d' = "dict_update d (indexed_items key ts)"
  have st: "store key (Tensor (Arr ts)) d = Inr ?d'" by (rule store_multi[OF n])
  have 1: "map_of ?d' key = map_of d key"
    using key_notin_indexed_items[of key ts]
    by (simp add: map_of_dict_update map_add_def map_of_eq_None_iff[THEN iffD2] split: option.splits)
  have 2: "\<forall>i<length ts. map_of ?d' (key @ ''/'' @ string_of_nat i) = Some (Tensor (ts ! i))"
    using map_of_rev_indexed_items[of _ ts key]
    by (simp add: map_of_dict_update format_index_def)
  have "fst ` set (indexed_items key ts) = format_index key ` {..<length ts}"
    using arg_cong[OF map_fst_indexed_items[of key ts], of set]
    by (simp add: atLeast0LessThan)
  then have 3: "fst ` set ?d' = fst ` set d \<union> (\<lambda>i. key @ ''/'' @ string_of_nat i) ` {..<length ts}"
    by (simp add: keys_dict_update format_index_def[abs_def])
  from st 1 2 3 show "\<exists>d'. store key (Tensor (Arr ts)) d = Inr d' \<and>
            map_of d' key = map_of d key \<and>
            (\<forall>i<length ts. map_of d' (key @ ''/'' @ string_of_nat i) = Some (Tensor (ts ! i))) \<and>
            fst ` set d' = fst ` set d \<union> (\<lambda>i. key @ ''/'' @ string_of_nat i) ` {..<length ts}"
    by blast
next
  assume "1 < length xs"
  then have n: "1 < numel (Arr (map Elem xs))" by (simp only: numel_map_Elem)
  have fresh: "dict_update [] (indexed_items key (map Elem xs)) = indexed_items key (map Elem xs)"
    using dict_update_fresh[of "indexed_items key (map Elem xs)" "[]"]
      distinct_indexed_items[of key "map Elem xs"]
    by simp
  have "store key (Tensor (Arr (map Elem xs))) [] = Inr (indexed_items key (map Elem xs))"
    unfolding store_multi[OF n] fresh by (rule refl)
  then show "store key (Tensor (Arr (map Elem xs))) []
        = Inr (map (\<lambda>i. (key @ ''/'' @ string_of_nat i, Tensor (Elem (xs ! i)))) [0..<length xs])"
    by (simp add: indexed_items_nth format_index_def)
next
  assume "\<forall>t. v = Tensor t \<longrightarrow> numel t \<le> 1"
  then have "store key v d = Inr (dict_setitem d key v)" by (rule store_single)
  then show "\<exists>d'. store key v d = Inr d' \<and> map_of d' = (map_of d)(key \<mapsto> v) \<and>
            fst ` set d' = insert key (fst ` set d)"
    by (simp add: map_of_dict_setitem keys_dict_setitem)
qed

theorem store_expands_tensors_witness:
  "store ''k'' (Tensor (Arr [Elem (Fin 1), Elem (Fin 3)])) []
     = Inr [(''k/0'', Tensor (Elem (Fin 1))), (''k/1'', Tensor (Elem (Fin 3)))] \<and>
   (\<exists>d'. store ''k'' (Tensor (Arr [Elem (Fin 1), Elem (Fin 3)])) [(''k'', PyFloat NaN)] = Inr d' \<and>
         map_of d' ''k'' = Some (PyFloat NaN) \<and>
         (\<forall>i<2. map_of d' (''k'' @ ''/'' @ string_of_nat i)
                    = Some (Tensor ([Elem (Fin 1), Elem (Fin 3)] ! i))) \<and>
         fst ` set d' = {''k''} \<union> (\<lambda>i. ''k'' @ ''/'' @ string_of_nat i) ` {..<2}) \<and>
   (\<exists>d'. store ''k'' (PyFloat (Fin 2)) [] = Inr d' \<and> map_of d' = [''k'' \<mapsto> PyFloat (Fin 2)] \<and>
         fst ` set d' = {''k''})"
  using store_expands_tensors[of "[Elem (Fin 1), Elem (Fin 3)]" "''k''" "[(''k'', PyFloat NaN)]"
      "[Fin 1, Fin 3]" "PyFloat (Fin 2)"]
    store_expands_tensors[of "[Elem (Fin 1), Elem (Fin 3)]" "''k''" "[]"
      "[Fin 1, Fin 3]" "PyFloat (Fin 2)"]
  by (simp add: string_of_nat_0 string_of_nat_1 upt_rec[of 0] upt_rec[of "Suc 0"] numeral_2_eq_2)

text \<open>
  The claim as stated fails for a result holding \<open>k > 1\<close> scalars that is not a
  one-dimensional tensor: a two by two tensor holds four scalars and is stored as two
  entries, each holding a row; a Python sequence of two floats is stored whole under the key
  itself.
\<close>

theorem store_matrix_counterexample:
  "numel (Arr [Arr [Elem (Fin 1), Elem (Fin 2)], Arr [Elem (Fin 3), Elem (Fin 4)]]) = 4 \<and>
   store ''k'' (Tensor (Arr [Arr [Elem (Fin 1), Elem (Fin 2)], Arr [Elem (Fin 3), Elem (Fin 4)]])) []
     = Inr [(''k/0'', Tensor (Arr [Elem (Fin 1), Elem (Fin 2)])),
            (''k/1'', Tensor (Arr [Elem (Fin 3), Elem (Fin 4)]))] \<and>
   length [(''k/0'', Tensor (Arr [Elem (Fin 1), Elem (Fin 2)])),
           (''k/1'', Tensor (Arr [Elem (Fin 3), Elem (Fin 4)]))] = 2 \<and>
   store ''k'' (PySeq [Fin 1, Fin 2]) [] = Inr [(''k'', PySeq [Fin 1, Fin 2])]"
  by (simp add: dict_of_def dict_setitem_def format_index_def string_of_nat_0 string_of_nat_1)

section \<open>Skipping parameters that hold a NaN\<close>




section \<open>The trigger\<close>

text \<open>
  Claim C4. In an invocation whose collection completes, when the trigger does not fire
  nothing is handed to the reporting sink and the summary is kept, with the dictionary of
  this invocation added to it; when the trigger fires, exactly one mapping is handed to the
  sink, the means computed from the summary with the dictionary of this invocation added,
  and the summary is replaced by a fresh empty one. Over a run in which nothing was
  reported, the summary has ingested exactly the dictionaries of the run's invocations, in
  order: what a firing invocation reports is accumulated since the last flush. An invocation
  whose collection raises reports nothing and changes nothing: the exception propagates before
  the summary and the trigger are touched.
\<close>

theorem trigger_decides_reporting:
  "(collect ext (modules w) = Inr statistics \<and>
    trigger_call (self_trigger ext) manager = (False, t') \<longrightarrow>
      call trigger_call compute_mean ext manager w
        = Inr (ext\<lparr>self_trigger := t', self_summary := self_summary ext @ [statistics]\<rparr>, w)) \<and>
   (collect ext (modules w) = Inr statistics \<and>
    trigger_call (self_trigger ext) manager = (True, t') \<longrightarrow>
      call trigger_call compute_mean ext manager w
        = Inr (ext\<lparr>self_trigger := t', self_summary := []\<rparr>,
               w\<lparr>reported := reported w @ [compute_mean (self_summary ext @ [statistics])]\<rparr>)) \<and>
   (run trigger_call compute_mean ext invs w = Inr (ext', w') \<and> reported w' = reported w \<longrightarrow>
      self_summary ext' =
        self_summary ext @ map (\<lambda>(m, h). case collect ext h of Inl e \<Rightarrow> [] | Inr s \<Rightarrow> s) invs) \<and>
   (collect ext (modules w) = Inl raised \<longrightarrow>
      call trigger_call compute_mean ext manager w = Inl raised)"
  using call_not_fired[of ext w statistics trigger_call manager t' compute_mean]
    call_fired[of ext w statistics trigger_call manager t' compute_mean]
    run_no_flush[of trigger_call compute_mean ext invs w ext' w']
    call_raises[of ext w raised trigger_call compute_mean manager]
  by blast

theorem trigger_decides_reporting_witness:
  "collect ex_ext (modules ex_world) = Inr ex_statistics \<and>
   interval_trigger 2 (self_trigger ex_ext) () = (False, 1) \<and>
   call (interval_trigger 2) mean_summary ex_ext () ex_world
     = Inr (ex_ext\<lparr>self_trigger := 1, self_summary := [ex_statistics]\<rparr>, ex_world) \<and>
   interval_trigger 2 1 () = (True, 2) \<and>
   call (interval_trigger 2) mean_summary
        (ex_ext\<lparr>self_trigger := 1, self_summary := [ex_statistics]\<rparr>) () ex_world
     = Inr (ex_ext\<lparr>self_trigger := 2, self_summary := []\<rparr>,
            ex_world\<lparr>reported := [mean_summary [ex_statistics, ex_statistics]]\<rparr>) \<and>
   run (interval_trigger 2) mean_summary ex_ext [((), ex_heap)] ex_world
     = Inr (ex_ext\<lparr>self_trigger := 1, self_summary := [ex_statistics]\<rparr>, ex_world) \<and>
   self_summary (ex_ext\<lparr>self_trigger := 1, self_summary := [ex_statistics]\<rparr>)
     = self_summary ex_ext @ [ex_statistics] \<and>
   collect ex_ext (modules \<lparr>modules = \<lambda>a. [(''b'', \<lparr>data = Elem (Fin 0), grad = None\<rparr>)],
                             reported = []\<rparr>) = Inl AttributeError \<and>
   call (interval_trigger 2) mean_summary ex_ext ()
        \<lparr>modules = \<lambda>a. [(''b'', \<lparr>data = Elem (Fin 0), grad = None\<rparr>)], reported = []\<rparr>
     = Inl AttributeError"
proof -
  let ?nograd = "\<lparr>modules = \<lambda>a. [(''b'', \<lparr>data = Elem (Fin 0), grad = None\<rparr>)], reported = []\<rparr>"
  have cn: "collect ex_ext (modules ?nograd) = Inl AttributeError"
    by (simp add: ex_ext_def collect_def init_def normalize_links_def dict_of_def dict_setitem_def
        link_body_def function_body_def getattr_def stat_value_def stat_mean_def mean_float_def
        stat_ends_def report_key_template_def prefix_arg_def format_index_def
        string_of_nat_0 string_of_nat_1)
  note n = trigger_decides_reporting[of ex_ext ?nograd _ "interval_trigger 2" "()" _
      mean_summary _ _ _ AttributeError]
  from n cn have rn: "call (interval_trigger 2) mean_summary ex_ext () ?nograd = Inl AttributeError"
    by blast
  have w: "modules ex_world = ex_heap" "reported ex_world = []"
    "ex_world\<lparr>modules := ex_heap\<rparr> = ex_world"
    by (simp_all add: ex_world_def)
  have c1: "collect (ex_ext\<lparr>self_trigger := 1, self_summary := [ex_statistics]\<rparr>) ex_heap
              = Inr ex_statistics"
    using collect_config[of "ex_ext\<lparr>self_trigger := 1, self_summary := [ex_statistics]\<rparr>" ex_ext ex_heap]
    by (simp add: ex_collect_statistics)
  have t1: "interval_trigger 2 (self_trigger ex_ext) () = (False, 1)"
    and t2: "interval_trigger 2 1 () = (True, 2)"
    by (simp_all add: interval_trigger_def ex_ext_fields)
  note a = trigger_decides_reporting[of ex_ext ex_world ex_statistics "interval_trigger 2" "()" 1
      mean_summary "[((), ex_heap)]"
      "ex_ext\<lparr>self_trigger := 1, self_summary := [ex_statistics]\<rparr>" ex_world]
  note b = trigger_decides_reporting[of
      "ex_ext\<lparr>self_trigger := 1, self_summary := [ex_statistics]\<rparr>" ex_world ex_statistics
      "interval_trigger 2" "()" 2 mean_summary "[]"
      "ex_ext\<lparr>self_trigger := 1, self_summary := [ex_statistics]\<rparr>" ex_world]
  from a b t1 t2 c1 have
    "collect ex_ext (modules ex_world) = Inr ex_statistics \<and>
     interval_trigger 2 (self_trigger ex_ext) () = (False, 1) \<and>
     call (interval_trigger 2) mean_summary ex_ext () ex_world
       = Inr (ex_ext\<lparr>self_trigger := 1, self_summary := [ex_statistics]\<rparr>, ex_world) \<and>
     interval_trigger 2 1 () = (True, 2) \<and>
     call (interval_trigger 2) mean_summary
          (ex_ext\<lparr>self_trigger := 1, self_summary := [ex_statistics]\<rparr>) () ex_world
       = Inr (ex_ext\<lparr>self_trigger := 2, self_summary := []\<rparr>,
              ex_world\<lparr>reported := [mean_summary [ex_statistics, ex_statistics]]\<rparr>) \<and>
     run (interval_trigger 2) mean_summary ex_ext [((), ex_heap)] ex_world
       = Inr (ex_ext\<lparr>self_trigger := 1, self_summary := [ex_statistics]\<rparr>, ex_world) \<and>
     self_summary (ex_ext\<lparr>self_trigger := 1, self_summary := [ex_statistics]\<rparr>)
       = self_summary ex_ext @ [ex_statistics]"
    by (simp add: w ex_collect_statistics ex_ext_fields)
  with cn rn show ?thesis by blast
qed

section \<open>Registration\<close>




section \<open>The scanned attributes\<close>

text \<open>
  Claim C6, as amended. The attributes scanned are derived from the two flags: \<^verbatim>\<open>data\<close>
  is scanned exactly when \<^verbatim>\<open>report_params\<close> is true, \<^verbatim>\<open>grad\<close> exactly when
  \<^verbatim>\<open>report_grads\<close> is true, and nothing else is. With \<^verbatim>\<open>report_params=True\<close> and
  \<^verbatim>\<open>report_grads=False\<close> every collected key has \<^verbatim>\<open>data\<close> as its attribute component:
  it is the prefix part, a parameter name, \<^verbatim>\<open>/data/\<close> and a function name, possibly
  followed by an index; it contains \<^verbatim>\<open>/grad/\<close> only if the prefix, a parameter name or a
  function name contains \<^verbatim>\<open>grad\<close>. With both flags false an invocation collects nothing.
\<close>

theorem scanned_attributes_follow_flags:
  "(''data'' \<in> set (self_attrs (init ds links st rp rg pre trig skip)) \<longleftrightarrow> rp) \<and>
   (''grad'' \<in> set (self_attrs (init ds links st rp rg pre trig skip)) \<longleftrightarrow> rg) \<and>
   set (self_attrs (init ds links st rp rg pre trig skip)) \<subseteq> {''data'', ''grad''} \<and>
   (collect (init ds links st True False pre trig skip) h = Inr collected \<and>
    (key, value) \<in> set collected \<longrightarrow>
      (\<exists>m pn p fn f.
          Module m \<in> set (normalize_links links) \<and> (pn, p) \<in> set (h m) \<and>
          (fn, f) \<in> set (self_statistics (init ds links st True False pre trig skip)) \<and>
          (key = prefix_arg pre @ pn @ ''/data/'' @ fn \<or>
           (\<exists>i. key = prefix_arg pre @ pn @ ''/data/'' @ fn @ ''/'' @ string_of_nat i))) \<and>
      ((\<forall>s. pre = Some s \<longrightarrow> \<not> sublist ''grad'' s) \<and>
       (\<forall>m pn p. Module m \<in> set (normalize_links links) \<and> (pn, p) \<in> set (h m)
                    \<longrightarrow> \<not> sublist ''grad'' pn) \<and>
       (\<forall>fn f. (fn, f) \<in> set (self_statistics (init ds links st True False pre trig skip))
                    \<longrightarrow> \<not> sublist ''grad'' fn)
       \<longrightarrow> \<not> sublist ''/grad/'' key)) \<and>
   (collect (init ds links st False False pre trig skip) h = Inr nothing \<longrightarrow> nothing = [])"
proof (intro conjI impI)
  show "(''data'' \<in> set (self_attrs (init ds links st rp rg pre trig skip))) = rp"
    and "(''grad'' \<in> set (self_attrs (init ds links st rp rg pre trig skip))) = rg"
    and "set (self_attrs (init ds links st rp rg pre trig skip)) \<subseteq> {''data'', ''grad''}"
    by (auto simp: init_fields)
next
  let ?E = "init ds links st True False pre trig skip"
  assume a: "collect ?E h = Inr collected \<and> (key, value) \<in> set collected"
  then have c: "collect ?E h = Inr collected" and kv: "(key, value) \<in> set collected"
    by simp_all
  from collect_provenance[OF c kv] obtain x val
    where x: "x \<in> set (scanned ?E h)"
      and it: "(key, value) \<in> set (items_of (scan_key ?E x) val)"
    by blast
  from x obtain pn p fn f m
    where xeq: "x = ((pn, p), ''data'', (fn, f))"
      and m: "Module m \<in> set (normalize_links links)" and p: "(pn, p) \<in> set (h m)"
      and f: "(fn, f) \<in> set (self_statistics ?E)"
    by (auto simp: set_scanned init_fields)
  have k: "scan_key ?E x = prefix_arg pre @ pn @ ''/data/'' @ fn"
    by (simp add: xeq scan_key_def report_key_template_def init_fields)
  from items_of_cases[OF it]
  have form: "key = prefix_arg pre @ pn @ ''/data/'' @ fn \<or>
              (\<exists>i. key = prefix_arg pre @ pn @ ''/data/'' @ fn @ ''/'' @ string_of_nat i)"
    unfolding k format_index_def by (simp only: append_assoc) blast
  with m p f show "\<exists>m pn p fn f.
          Module m \<in> set (normalize_links links) \<and> (pn, p) \<in> set (h m) \<and>
          (fn, f) \<in> set (self_statistics ?E) \<and>
          (key = prefix_arg pre @ pn @ ''/data/'' @ fn \<or>
           (\<exists>i. key = prefix_arg pre @ pn @ ''/data/'' @ fn @ ''/'' @ string_of_nat i))"
    by blast
  assume ng: "(\<forall>s. pre = Some s \<longrightarrow> \<not> sublist ''grad'' s) \<and>
       (\<forall>m pn p. Module m \<in> set (normalize_links links) \<and> (pn, p) \<in> set (h m)
                    \<longrightarrow> \<not> sublist ''grad'' pn) \<and>
       (\<forall>fn f. (fn, f) \<in> set (self_statistics ?E) \<longrightarrow> \<not> sublist ''grad'' fn)"
  with m p f have gp: "\<not> sublist ''grad'' pn" and gf: "\<not> sublist ''grad'' fn" by blast+
  have "\<not> sublist ''grad'' key"
  proof (cases pre)
    case None
    with form grad_not_in_key(2)[OF _ gp gf, of "[]"] grad_not_in_key(4)[OF _ gp gf, of "[]"]
    show ?thesis by auto
  next
    case (Some s)
    with ng have gs: "\<not> sublist ''grad'' s" by simp
    from form Some grad_not_in_key(1)[OF gs gp gf] grad_not_in_key(3)[OF gs gp gf]
    show ?thesis by auto
  qed
  then show "\<not> sublist ''/grad/'' key" using grad_in_slash_grad by blast
next
  assume "collect (init ds links st False False pre trig skip) h = Inr nothing"
  then have "nothing = dict_of (written (init ds links st False False pre trig skip) h)"
    by (simp add: collect_Inr_iff)
  moreover have "scanned (init ds links st False False pre trig skip) h = []"
    by (rule scanned_no_attrs) (simp add: init_fields)
  ultimately show "nothing = []" by (simp add: written_def dict_of_def)
qed

theorem scanned_attributes_follow_flags_witness:
  "''data'' \<in> set (self_attrs (init [] (Module 0) (StatDict [(''mean'', stat_mean)])
                                 True False None (0::nat) False)) \<and>
   ''grad'' \<notin> set (self_attrs (init [] (Module 0) (StatDict [(''mean'', stat_mean)])
                                 True False None (0::nat) False)) \<and>
   collect (init [] (Module 0) (StatDict [(''mean'', stat_mean)]) True False None (0::nat) False)
     ex_heap = Inr [(''W/data/mean'', Tensor (Elem (Fin 2)))] \<and>
   \<not> sublist ''/grad/'' ''W/data/mean'' \<and>
   collect (init [] (Module 0) (StatDict [(''mean'', stat_mean)]) False False None (0::nat) False)
     ex_heap = Inr []"
proof -
  note t = scanned_attributes_follow_flags[of "[]" "Module 0" "StatDict [(''mean'', stat_mean)]"
      True False None "0::nat" False ex_heap "[(''W/data/mean'', Tensor (Elem (Fin 2)))]"
      "''W/data/mean''" "Tensor (Elem (Fin 2))" "[]"]
  have names: "(\<forall>s. (None :: string option) = Some s \<longrightarrow> \<not> sublist ''grad'' s) \<and>
       (\<forall>m pn p. Module m \<in> set (normalize_links (Module 0)) \<and> (pn, p) \<in> set (ex_heap m)
                    \<longrightarrow> \<not> sublist ''grad'' pn) \<and>
       (\<forall>fn f. (fn, f) \<in> set (self_statistics
                    (init [] (Module 0) (StatDict [(''mean'', stat_mean)]) True False None (0::nat) False))
                    \<longrightarrow> \<not> sublist ''grad'' fn)"
    by (auto simp: normalize_links_def ex_heap_def init_def dict_of_def dict_setitem_def
        sublist_Cons_right)
  have mem: "(''W/data/mean'', Tensor (Elem (Fin 2))) \<in> set [(''W/data/mean'', Tensor (Elem (Fin 2)))]"
    by simp
  from t ex_collect_mean mem names have g: "\<not> sublist ''/grad/'' ''W/data/mean''" by blast
  have e: "collect (init [] (Module 0) (StatDict [(''mean'', stat_mean)]) False False None (0::nat) False)
     ex_heap = Inr []"
    by (simp add: collect_def init_def normalize_links_def link_body_def ex_heap_def)
  from t have "''data'' \<in> set (self_attrs (init [] (Module 0) (StatDict [(''mean'', stat_mean)])
                                 True False None (0::nat) False))"
    and "''grad'' \<notin> set (self_attrs (init [] (Module 0) (StatDict [(''mean'', stat_mean)])
                                 True False None (0::nat) False))"
    by blast+
  with ex_collect_mean g e show ?thesis by blast
qed

text \<open>
  The claim as stated fails when a name chosen by the user holds \<^verbatim>\<open>/grad\<close>: with the
  prefix \<^verbatim>\<open>x/grad\<close> and gradients not reported, the key of the mean of \<^verbatim>\<open>W\<close> contains
  \<^verbatim>\<open>/grad/\<close>.
\<close>

theorem grad_in_prefix_counterexample:
  "collect (init [] (Module 0) (StatDict [(''mean'', stat_mean)]) True False (Some ''x/grad'')
              (0::nat) False) ex_heap
     = Inr [(''x/grad/W/data/mean'', Tensor (Elem (Fin 2)))] \<and>
   sublist ''/grad/'' ''x/grad/W/data/mean''"
  by (simp add: collect_def init_def normalize_links_def dict_of_def dict_setitem_def
      link_body_def ex_heap_def ex_W_def function_body_def getattr_def stat_value_def
      stat_mean_def mean_float_def report_key_template_def prefix_arg_def sublist_Cons_right)

section \<open>An empty registry\<close>

text \<open>
  Claim C7. When the extension is constructed with \<^verbatim>\<open>statistics=None\<close> or
  \<^verbatim>\<open>statistics={}\<close> over links that are modules, the registry is empty; every invocation
  of a run of any length completes, leaves the registry empty, and the dictionary the next
  invocation collects is empty whatever the modules hold, also when a gradient is
  \<^verbatim>\<open>None\<close>: no parameter is flattened and no statistic function is applied.
\<close>

theorem empty_registry_produces_nothing:
  assumes "statistics = StatNone \<or> statistics = StatDict []"
    and "\<forall>l\<in>set (normalize_links links). \<exists>a. l = Module a"
  shows "self_statistics (init ds links statistics rp rg pre trig skip) = [] \<and>
         (\<exists>ext' w'. run tc cm (init ds links statistics rp rg pre trig skip) invs w = Inr (ext', w') \<and>
            self_statistics ext' = [] \<and> (\<forall>h. collect ext' h = Inr []))"
proof -
  let ?ext = "init ds links statistics rp rg pre trig skip"
  have s: "self_statistics ?ext = []"
    using assms(1) by (auto simp: init_def dict_of_def)
  have l: "\<forall>l\<in>set (self_links ?ext). \<exists>a. l = Module a"
    using assms(2) by (simp add: init_def)
  from run_no_statistics[OF s l, of tc cm invs w]
  obtain ext' w' where r: "run tc cm ?ext invs w = Inr (ext', w')"
    and s': "self_statistics ext' = []" and l': "self_links ext' = self_links ?ext"
    by blast
  have "collect ext' h = Inr []" for h
    using s' l l' by (simp add: collect_nothing_scanned scanned_no_statistics)
  with s r s' show ?thesis by blast
qed

theorem empty_registry_produces_nothing_witness:
  "normalize_links (Module 0) = [Module 0] \<and>
   self_statistics (init [(''mean'', stat_mean)] (Module 0) (StatDict []) True True None (0::nat) False) = [] \<and>
   (\<exists>ext' w'. run (interval_trigger 1) mean_summary
                 (init [(''mean'', stat_mean)] (Module 0) (StatDict []) True True None (0::nat) False)
                 [((), ex_heap), ((), ex_heap)] ex_world = Inr (ext', w') \<and>
       self_statistics ext' = [] \<and> (\<forall>h. collect ext' h = Inr []))"
  using empty_registry_produces_nothing[where statistics = "StatDict []" and links = "Module 0"
      and ds = "[(''mean'', stat_mean)]" and rp = True and rg = True and pre = None
      and trig = "0::nat" and skip = False and tc = "interval_trigger 1" and cm = mean_summary
      and invs = "[((), ex_heap), ((), ex_heap)]" and w = ex_world]
  by (simp add: normalize_links_def)

section \<open>The links\<close>

text \<open>
  Claim C8. The documentation of the class gives \<^verbatim>\<open>links\<close> as an instance or an
  iterable of modules. The constructor keeps a list or a tuple as the sequence of links and
  wraps every other object in a sequence of one element. An iterable of two modules that is
  neither a list nor a tuple, such as a generator or a set, therefore becomes the only link,
  and an invocation does not iterate the two modules: it raises \<^verbatim>\<open>AttributeError\<close>,
  because the iterable itself has no \<^verbatim>\<open>named_parameters\<close>.
\<close>

theorem iterable_links_raise:
  "self_links (init [] (IterObj [Module 0, Module 1]) (StatDict [(''mean'', stat_mean)])
                True True None (0::nat) False)
     = [IterObj [Module 0, Module 1]] \<and>
   collect (init [] (IterObj [Module 0, Module 1]) (StatDict [(''mean'', stat_mean)])
              True True None (0::nat) False) ex_heap
     = Inl AttributeError \<and>
   call (interval_trigger 1) mean_summary
        (init [] (IterObj [Module 0, Module 1]) (StatDict [(''mean'', stat_mean)])
              True True None (0::nat) False) () ex_world
     = Inl AttributeError"
  by (simp add: init_def normalize_links_def collect_def link_body_def call_def ex_world_def)

section \<open>The modules are only read\<close>




section \<open>The empty prefix\<close>

text \<open>
  Claim C10. A configuration with \<^verbatim>\<open>prefix=''\<close> collects, from the same links and in
  whatever state the modules are, exactly the dictionary that the configuration with
  \<^verbatim>\<open>prefix=None\<close> collects; in both cases the report key is the parameter name, the
  attribute name and the function name joined by \<^verbatim>\<open>/\<close>, with nothing in front.
\<close>

theorem empty_prefix_like_none:
  "collect (ext\<lparr>self_prefix := Some ''''\<rparr>) h = collect (ext\<lparr>self_prefix := None\<rparr>) h \<and>
   collect (init ds links statistics rp rg (Some '''') trig skip) h
     = collect (init ds links statistics rp rg None trig skip) h \<and>
   report_key_template (prefix_arg (Some '''')) param_name attr_name function_name
     = param_name @ ''/'' @ attr_name @ ''/'' @ function_name \<and>
   report_key_template (prefix_arg None) param_name attr_name function_name
     = param_name @ ''/'' @ attr_name @ ''/'' @ function_name"
proof -
  have e: "prefix_arg (Some '''') = prefix_arg None" by (simp add: prefix_arg_def)
  have "init ds links statistics rp rg (Some '''') trig skip
          = (init ds links statistics rp rg None trig skip)\<lparr>self_prefix := Some ''''\<rparr>"
       "init ds links statistics rp rg None trig skip
          = (init ds links statistics rp rg None trig skip)\<lparr>self_prefix := None\<rparr>"
    by (simp_all add: init_def)
  then have "collect (init ds links statistics rp rg (Some '''') trig skip) h
     = collect (init ds links statistics rp rg None trig skip) h"
    using collect_prefix[OF e, of "init ds links statistics rp rg None trig skip" h] by simp
  then show ?thesis
    using collect_prefix[OF e, of ext h] by (simp add: report_key_template_def prefix_arg_def)
qed

theorem empty_prefix_like_none_witness:
  "collect (init [] (Module 0) (StatDict [(''mean'', stat_mean)]) True False (Some '''') (0::nat) False) ex_heap
     = Inr [(''W/data/mean'', Tensor (Elem (Fin 2)))] \<and>
   collect (init [] (Module 0) (StatDict [(''mean'', stat_mean)]) True False None (0::nat) False) ex_heap
     = Inr [(''W/data/mean'', Tensor (Elem (Fin 2)))]"
proof -
  have "collect (init [] (Module 0) (StatDict [(''mean'', stat_mean)]) True False None (0::nat) False) ex_heap
     = Inr [(''W/data/mean'', Tensor (Elem (Fin 2)))]"
    by (simp add: collect_def init_def normalize_links_def dict_of_def dict_setitem_def
        link_body_def ex_heap_def ex_W_def function_body_def getattr_def stat_value_def
        stat_mean_def mean_float_def report_key_template_def prefix_arg_def)
  then show ?thesis
    using empty_prefix_like_none[where ds = "[]" and links = "Module 0"
        and statistics = "StatDict [(''mean'', stat_mean)]" and rp = True and rg = False
        and trig = "0::nat" and skip = False and h = ex_heap
        and ext = "init [] (Module 0) (StatDict []) True False None (0::nat) False"
        and param_name = "''W''" and attr_name = "''data''" and function_name = "''mean''"]
    by simp
qed

end
